theory Spec2Isabelle
  imports Main "HOL-Library.Word" "HOL-Library.Sublist"
begin

section \<open>Values, exceptions and the transport\<close>

text \<open>
  The server of \<^verbatim>\<open>app.py\<close> exchanges JSON texts over websocket connections.
  \<^verbatim>\<open>json.dumps\<close> and \<^verbatim>\<open>json.loads\<close> are taken as inverse codecs, so a message is
  represented by the JSON value it carries; an inbound frame that is not JSON text is
  \<open>NotJson\<close>. A JSON object is the list of the items of the Python dict it parses to.
\<close>

datatype json =
    JNull
  | JBool bool
  | JInt int
  | JStr string
  | JArr "json list"
  | JObj "(string \<times> json) list"

datatype message = Json json | NotJson

text \<open>The exceptions that can travel through the coroutines of \<^verbatim>\<open>app.py\<close>.\<close>

datatype exn =
    RuntimeError string
  | AssertionError
  | KeyError
  | TypeError
  | JSONDecodeError
  | ConnectionClosed
  | CancelledError
  | SMTPException
  | OtherError string

definition json_loads :: "message \<Rightarrow> exn + json" where
  "json_loads m = (case m of Json v \<Rightarrow> Inr v | NotJson \<Rightarrow> Inl JSONDecodeError)"

text \<open>\<^verbatim>\<open>event[key]\<close> with a string key: only a dict can be subscripted by a string.\<close>

fun subscript :: "json \<Rightarrow> string \<Rightarrow> exn + json" where
  "subscript (JObj kvs) k = (case map_of kvs k of None \<Rightarrow> Inl KeyError | Some v \<Rightarrow> Inr v)"
| "subscript _ k = Inl TypeError"

text \<open>\<^verbatim>\<open>key in event\<close>, used by the handler once \<^verbatim>\<open>event["type"]\<close> has succeeded.\<close>

fun contains :: "json \<Rightarrow> string \<Rightarrow> bool" where
  "contains (JObj kvs) k = (map_of kvs k \<noteq> None)"
| "contains _ k = False"

type_synonym ws = nat
type_synonym ref = nat

text \<open>
  What the server has addressed to a connection, oldest first, with the transport call
  that carried it: \<^verbatim>\<open>websocket.send\<close> or \<^verbatim>\<open>websockets.broadcast\<close>.
\<close>

datatype delivery = Sent json | Broadcast json

section \<open>The game engine\<close>

text \<open>
  \<^verbatim>\<open>from connect4 import PLAYER1, PLAYER2, Connect4\<close>: the engine is imported, not part
  of \<^verbatim>\<open>app.py\<close>. The server uses the two player constants, the constructor, the method
  \<^verbatim>\<open>play\<close> (which returns the row or raises) and the attributes \<^verbatim>\<open>winner\<close> and
  \<^verbatim>\<open>moves\<close>. They are parameters of the model; \<open>JNull\<close> stands for \<^verbatim>\<open>None\<close>.
\<close>

record 'g connect4 =
  PLAYER1 :: json
  PLAYER2 :: json
  Connect4 :: 'g
  game_play :: "'g \<Rightarrow> json \<Rightarrow> json \<Rightarrow> exn + json \<times> 'g"
  game_winner :: "'g \<Rightarrow> json"
  game_moves :: "'g \<Rightarrow> (json \<times> json \<times> json) list"

section \<open>The state of the server\<close>

text \<open>
  \<^verbatim>\<open>JOIN\<close> and \<^verbatim>\<open>WATCH\<close> map a key to the pair \<^verbatim>\<open>(game, connected)\<close>. Both dicts hold
  references to the same two objects, which the coroutines mutate in place, so the pair
  lives in a store and the dicts hold its reference.
\<close>

record 'g session =
  game :: 'g
  connected :: "ws set"

record 'g state =
  JOIN :: "string \<rightharpoonup> ref"
  WATCH :: "string \<rightharpoonup> ref"
  store :: "ref \<Rightarrow> 'g session"
  next_ref :: ref
  outbox :: "ws \<Rightarrow> delivery list"
  refuse :: "ws \<Rightarrow> exn option"

text \<open>
  What a connection and the outside world contribute to one run of a coroutine: the bytes
  of the operating system's random source for the two tokens, the fate of the SMTP
  dialogue, the frames the connection delivers to \<^verbatim>\<open>async for message in websocket\<close>,
  how that iteration ends (\<open>None\<close>: the connection closed normally), and what
  \<^verbatim>\<open>wait_closed\<close> raises (only a cancellation can make it raise).
\<close>

record world =
  urandom_join :: "nat \<Rightarrow> 8 word"
  urandom_watch :: "nat \<Rightarrow> 8 word"
  smtp :: "exn option"
  inbox :: "message list"
  closing :: "exn option"
  wait_closed :: "exn option"

type_synonym 'g outcome = "exn option \<times> 'g state"

text \<open>Sequencing of statements, and \<^verbatim>\<open>try: ... finally: ...\<close>.\<close>

definition and_then :: "'g outcome \<Rightarrow> ('g state \<Rightarrow> 'g outcome) \<Rightarrow> 'g outcome" where
  "and_then r f = (case r of (None, s) \<Rightarrow> f s | (Some e, s) \<Rightarrow> (Some e, s))"

definition try_finally :: "'g outcome \<Rightarrow> ('g state \<Rightarrow> 'g outcome) \<Rightarrow> 'g outcome" where
  "try_finally r cleanup =
     (case r of (res, s) \<Rightarrow>
        (case cleanup s of (Some e, s') \<Rightarrow> (Some e, s') | (None, s') \<Rightarrow> (res, s')))"

text \<open>
  \<^verbatim>\<open>await websocket.send(...)\<close> raises when the transport refuses the connection, and
  otherwise hands the message over. \<^verbatim>\<open>websockets.broadcast\<close> never raises.
\<close>

definition send :: "ws \<Rightarrow> json \<Rightarrow> 'g state \<Rightarrow> 'g outcome" where
  "send w msg st =
     (case refuse st w of
        Some e \<Rightarrow> (Some e, st)
      | None \<Rightarrow> (None, st\<lparr>outbox := (outbox st)(w := outbox st w @ [Sent msg])\<rparr>))"

definition broadcast :: "ws set \<Rightarrow> json \<Rightarrow> 'g state \<Rightarrow> 'g state" where
  "broadcast conns msg st =
     st\<lparr>outbox := (\<lambda>w. if w \<in> conns then outbox st w @ [Broadcast msg] else outbox st w)\<rparr>"

section \<open>Tokens\<close>

text \<open>
  \<^verbatim>\<open>secrets.token_urlsafe(nbytes)\<close> draws \<open>nbytes\<close> bytes from the operating system and
  returns their URL-safe Base64 text with the padding stripped.
\<close>

definition b64_alphabet :: string where
  "b64_alphabet = ''ABCDEFGHIJKLMNOPQRSTUVWXYZabcdefghijklmnopqrstuvwxyz0123456789-_''"

definition sextet :: "nat \<Rightarrow> char" where
  "sextet n = b64_alphabet ! (n mod 64)"

fun urlsafe_b64 :: "8 word list \<Rightarrow> string" where
  "urlsafe_b64 (a # b # c # bs) =
     (let n = unat a * 65536 + unat b * 256 + unat c
      in [sextet (n div 262144), sextet (n div 4096), sextet (n div 64), sextet n])
     @ urlsafe_b64 bs"
| "urlsafe_b64 [a, b] =
     (let n = unat a * 1024 + unat b * 4
      in [sextet (n div 4096), sextet (n div 64), sextet n])"
| "urlsafe_b64 [a] = (let n = unat a * 16 in [sextet (n div 64), sextet n])"
| "urlsafe_b64 [] = []"

definition token_bytes :: "nat \<Rightarrow> (nat \<Rightarrow> 8 word) \<Rightarrow> 8 word list" where
  "token_bytes nbytes urandom = map urandom [0..<nbytes]"

definition token_urlsafe :: "nat \<Rightarrow> (nat \<Rightarrow> 8 word) \<Rightarrow> string" where
  "token_urlsafe nbytes urandom = urlsafe_b64 (token_bytes nbytes urandom)"

text \<open>\<^verbatim>\<open>JOIN[join_key]\<close> with the key a client sent: lists and dicts are unhashable.\<close>

fun lookup :: "(string \<rightharpoonup> ref) \<Rightarrow> json \<Rightarrow> exn + ref" where
  "lookup m (JStr k) = (case m k of None \<Rightarrow> Inl KeyError | Some r \<Rightarrow> Inr r)"
| "lookup m (JArr xs) = Inl TypeError"
| "lookup m (JObj kvs) = Inl TypeError"
| "lookup m v = Inl KeyError"

text \<open>\<^verbatim>\<open>del d[key]\<close> raises \<^verbatim>\<open>KeyError\<close> when the key is absent.\<close>

definition del :: "(string \<rightharpoonup> ref) \<Rightarrow> string \<Rightarrow> exn + (string \<rightharpoonup> ref)" where
  "del m k = (case m k of None \<Rightarrow> Inl KeyError | Some r \<Rightarrow> Inr (m(k := None)))"

definition del_JOIN :: "string \<Rightarrow> 'g state \<Rightarrow> 'g outcome" where
  "del_JOIN k st = (case del (JOIN st) k of Inl e \<Rightarrow> (Some e, st) | Inr m \<Rightarrow> (None, st\<lparr>JOIN := m\<rparr>))"

definition del_WATCH :: "string \<Rightarrow> 'g state \<Rightarrow> 'g outcome" where
  "del_WATCH k st = (case del (WATCH st) k of Inl e \<Rightarrow> (Some e, st) | Inr m \<Rightarrow> (None, st\<lparr>WATCH := m\<rparr>))"

section \<open>The coroutines of app.py\<close>

definition error :: "ws \<Rightarrow> string \<Rightarrow> 'g state \<Rightarrow> 'g outcome" where
  "error w msg st = send w (JObj [(''type'', JStr ''error''), (''message'', JStr msg)]) st"

definition play_event :: "json \<Rightarrow> json \<Rightarrow> json \<Rightarrow> json" where
  "play_event player column row =
     JObj [(''type'', JStr ''play''), (''player'', player), (''column'', column), (''row'', row)]"

definition win_event :: "json \<Rightarrow> json" where
  "win_event player = JObj [(''type'', JStr ''win''), (''player'', player)]"

definition init_event :: "string \<Rightarrow> string \<Rightarrow> json" where
  "init_event join_key watch_key =
     JObj [(''type'', JStr ''init''), (''join'', JStr join_key), (''watch'', JStr watch_key)]"

text \<open>
  \<^verbatim>\<open>replay\<close>: the loop runs over \<^verbatim>\<open>game.moves.copy()\<close>, a list taken once, before the
  first \<^verbatim>\<open>send\<close>.
\<close>

fun replay_copy :: "ws \<Rightarrow> (json \<times> json \<times> json) list \<Rightarrow> 'g state \<Rightarrow> 'g outcome" where
  "replay_copy w [] st = (None, st)"
| "replay_copy w ((player, column, row) # ms) st =
     and_then (send w (play_event player column row) st) (replay_copy w ms)"

definition replay :: "'g connect4 \<Rightarrow> ws \<Rightarrow> ref \<Rightarrow> 'g state \<Rightarrow> 'g outcome" where
  "replay eng w r st = replay_copy w (game_moves eng (game (store st r))) st"

text \<open>
  The body of the loop of \<^verbatim>\<open>play\<close> for one message. The game and the connection set are
  the objects the coroutine was given, here the session at reference \<open>r\<close>.
\<close>

definition set_game :: "ref \<Rightarrow> 'g \<Rightarrow> 'g state \<Rightarrow> 'g state" where
  "set_game r g st = st\<lparr>store := (store st)(r := (store st r)\<lparr>game := g\<rparr>)\<rparr>"

definition play_body :: "'g connect4 \<Rightarrow> ws \<Rightarrow> ref \<Rightarrow> json \<Rightarrow> message \<Rightarrow> 'g state \<Rightarrow> 'g outcome" where
  "play_body eng w r player m st =
     (case json_loads m of
        Inl e \<Rightarrow> (Some e, st)
      | Inr event \<Rightarrow>
          (case subscript event ''type'' of
             Inl e \<Rightarrow> (Some e, st)
           | Inr t \<Rightarrow>
               if t \<noteq> JStr ''play'' then (Some AssertionError, st)
               else
                 (case subscript event ''column'' of
                    Inl e \<Rightarrow> (Some e, st)
                  | Inr column \<Rightarrow>
                      (case game_play eng (game (store st r)) player column of
                         Inl (RuntimeError msg) \<Rightarrow> error w msg st
                       | Inl e \<Rightarrow> (Some e, st)
                       | Inr (row, g') \<Rightarrow>
                           (let st1 = set_game r g' st;
                                st2 = broadcast (connected (store st1 r))
                                        (play_event player column row) st1
                            in if game_winner eng (game (store st2 r)) \<noteq> JNull
                               then (None, broadcast (connected (store st2 r))
                                             (win_event (game_winner eng (game (store st2 r)))) st2)
                               else (None, st2))))))"

fun play_loop ::
  "'g connect4 \<Rightarrow> ws \<Rightarrow> ref \<Rightarrow> json \<Rightarrow> message list \<Rightarrow> exn option \<Rightarrow> 'g state \<Rightarrow> 'g outcome" where
  "play_loop eng w r player [] fin st = (fin, st)"
| "play_loop eng w r player (m # ms) fin st =
     and_then (play_body eng w r player m st) (play_loop eng w r player ms fin)"

definition play :: "'g connect4 \<Rightarrow> world \<Rightarrow> ws \<Rightarrow> ref \<Rightarrow> json \<Rightarrow> 'g state \<Rightarrow> 'g outcome" where
  "play eng env w r player st = play_loop eng w r player (inbox env) (closing env) st"

text \<open>
  \<^verbatim>\<open>send_email\<close> builds a MIME message and talks to the SMTP server; nothing of the
  server's state is touched, and the dialogue either completes or raises.
\<close>

definition send_email :: "world \<Rightarrow> json \<Rightarrow> string \<Rightarrow> string \<Rightarrow> 'g state \<Rightarrow> 'g outcome" where
  "send_email env to_email subject message_body st = (smtp env, st)"

definition start_cleanup :: "string \<Rightarrow> string \<Rightarrow> 'g state \<Rightarrow> 'g outcome" where
  "start_cleanup join_key watch_key st = and_then (del_JOIN join_key st) (del_WATCH watch_key)"

definition start_setup :: "'g connect4 \<Rightarrow> ws \<Rightarrow> string \<Rightarrow> string \<Rightarrow> 'g state \<Rightarrow> 'g state" where
  "start_setup eng w join_key watch_key st =
     (let r = next_ref st;
          st1 = st\<lparr>store := (store st)(r := \<lparr>game = Connect4 eng, connected = {w}\<rparr>),
                   next_ref := Suc r\<rparr>;
          st2 = st1\<lparr>JOIN := (JOIN st1)(join_key \<mapsto> r)\<rparr>
      in st2\<lparr>WATCH := (WATCH st2)(watch_key \<mapsto> r)\<rparr>)"

text \<open>The body of the \<^verbatim>\<open>try\<close> of \<^verbatim>\<open>start\<close>.\<close>

definition start_try ::
  "'g connect4 \<Rightarrow> world \<Rightarrow> ws \<Rightarrow> ref \<Rightarrow> string \<Rightarrow> string \<Rightarrow> json \<Rightarrow> 'g state \<Rightarrow> 'g outcome" where
  "start_try eng env w r join_key watch_key email st =
     and_then
       (and_then
          (send w (init_event join_key watch_key) st)
          (send_email env email ''Welcome to Connect Four!''
             ''You've joined a new game of Connect Four.''))
       (play eng env w r (PLAYER1 eng))"

definition start :: "'g connect4 \<Rightarrow> world \<Rightarrow> ws \<Rightarrow> json \<Rightarrow> 'g state \<Rightarrow> 'g outcome" where
  "start eng env w email st =
     (let r = next_ref st;
          join_key = token_urlsafe 12 (urandom_join env);
          watch_key = token_urlsafe 12 (urandom_watch env)
      in try_finally
           (start_try eng env w r join_key watch_key email
              (start_setup eng w join_key watch_key st))
           (start_cleanup join_key watch_key))"

definition connected_add :: "ws \<Rightarrow> ref \<Rightarrow> 'g state \<Rightarrow> 'g state" where
  "connected_add w r st =
     st\<lparr>store := (store st)(r := (store st r)\<lparr>connected := insert w (connected (store st r))\<rparr>)\<rparr>"

text \<open>\<^verbatim>\<open>connected.remove(websocket)\<close> raises \<^verbatim>\<open>KeyError\<close> when the element is absent.\<close>

definition connected_remove :: "ws \<Rightarrow> ref \<Rightarrow> 'g state \<Rightarrow> 'g outcome" where
  "connected_remove w r st =
     (if w \<in> connected (store st r)
      then (None, st\<lparr>store := (store st)(r := (store st r)\<lparr>connected := connected (store st r) - {w}\<rparr>)\<rparr>)
      else (Some KeyError, st))"

text \<open>The bodies of the \<^verbatim>\<open>try\<close> of \<^verbatim>\<open>join\<close> and of \<^verbatim>\<open>watch\<close>.\<close>

definition join_try :: "'g connect4 \<Rightarrow> world \<Rightarrow> ws \<Rightarrow> ref \<Rightarrow> json \<Rightarrow> 'g state \<Rightarrow> 'g outcome" where
  "join_try eng env w r email st =
     and_then
       (and_then (replay eng w r st) (play eng env w r (PLAYER2 eng)))
       (send_email env email ''Connect Four Update'' ''You've joined a game of Connect Four.'')"

definition watch_try :: "'g connect4 \<Rightarrow> world \<Rightarrow> ws \<Rightarrow> ref \<Rightarrow> json \<Rightarrow> 'g state \<Rightarrow> 'g outcome" where
  "watch_try eng env w r email st =
     and_then
       (and_then (replay eng w r st) (\<lambda>s. (wait_closed env, s)))
       (send_email env email ''Connect Four Update''
          ''You're now watching a game of Connect Four.'')"

definition join :: "'g connect4 \<Rightarrow> world \<Rightarrow> ws \<Rightarrow> json \<Rightarrow> json \<Rightarrow> 'g state \<Rightarrow> 'g outcome" where
  "join eng env w join_key email st =
     (case lookup (JOIN st) join_key of
        Inl e \<Rightarrow> if e = KeyError then error w ''Game not found.'' st else (Some e, st)
      | Inr r \<Rightarrow>
          try_finally (join_try eng env w r email (connected_add w r st)) (connected_remove w r))"

definition watch :: "'g connect4 \<Rightarrow> world \<Rightarrow> ws \<Rightarrow> json \<Rightarrow> json \<Rightarrow> 'g state \<Rightarrow> 'g outcome" where
  "watch eng env w watch_key email st =
     (case lookup (WATCH st) watch_key of
        Inl e \<Rightarrow> if e = KeyError then error w ''Game not found.'' st else (Some e, st)
      | Inr r \<Rightarrow>
          try_finally (watch_try eng env w r email (connected_add w r st)) (connected_remove w r))"

text \<open>
  A call binds its positional arguments to the parameters of the coroutine function and
  raises \<^verbatim>\<open>TypeError\<close> when their number differs from the number of parameters
  (none has a default). In \<^verbatim>\<open>app.py\<close> the first argument is always the connection.
\<close>

datatype arg = Conn ws | Val json

fun call_start :: "'g connect4 \<Rightarrow> world \<Rightarrow> arg list \<Rightarrow> 'g state \<Rightarrow> 'g outcome" where
  "call_start eng env [Conn w, Val email] st = start eng env w email st"
| "call_start eng env args st = (Some TypeError, st)"

fun call_join :: "'g connect4 \<Rightarrow> world \<Rightarrow> arg list \<Rightarrow> 'g state \<Rightarrow> 'g outcome" where
  "call_join eng env [Conn w, Val join_key, Val email] st = join eng env w join_key email st"
| "call_join eng env args st = (Some TypeError, st)"

fun call_watch :: "'g connect4 \<Rightarrow> world \<Rightarrow> arg list \<Rightarrow> 'g state \<Rightarrow> 'g outcome" where
  "call_watch eng env [Conn w, Val watch_key, Val email] st = watch eng env w watch_key email st"
| "call_watch eng env args st = (Some TypeError, st)"

text \<open>
  \<^verbatim>\<open>handler\<close>: \<^verbatim>\<open>recv\<close> takes the first frame of the connection, or raises when the
  connection closes before one arrives; the rest of the frames is left to the callee.
\<close>

definition handler :: "'g connect4 \<Rightarrow> world \<Rightarrow> ws \<Rightarrow> 'g state \<Rightarrow> 'g outcome" where
  "handler eng env w st =
     (case inbox env of
        [] \<Rightarrow> (Some ConnectionClosed, st)
      | m # ms \<Rightarrow>
          (case json_loads m of
             Inl e \<Rightarrow> (Some e, st)
           | Inr event \<Rightarrow>
               (case subscript event ''type'' of
                  Inl e \<Rightarrow> (Some e, st)
                | Inr t \<Rightarrow>
                    if t \<noteq> JStr ''init'' then (Some AssertionError, st)
                    else if contains event ''join'' then
                      (case subscript event ''join'' of
                         Inl e \<Rightarrow> (Some e, st)
                       | Inr k \<Rightarrow> call_join eng (env\<lparr>inbox := ms\<rparr>) [Conn w, Val k] st)
                    else if contains event ''watch'' then
                      (case subscript event ''watch'' of
                         Inl e \<Rightarrow> (Some e, st)
                       | Inr k \<Rightarrow> call_watch eng (env\<lparr>inbox := ms\<rparr>) [Conn w, Val k] st)
                    else call_start eng (env\<lparr>inbox := ms\<rparr>) [Conn w] st)))"

text \<open>The module as imported: both registries are empty dicts, nothing has been sent.\<close>

definition initial :: "'g \<Rightarrow> 'g state" where
  "initial g =
     \<lparr>JOIN = Map.empty, WATCH = Map.empty,
      store = (\<lambda>r. \<lparr>game = g, connected = {}\<rparr>), next_ref = 0,
      outbox = (\<lambda>w. []), refuse = (\<lambda>w. None)\<rparr>"

section \<open>Tasks of one session running side by side\<close>











section \<open>The engine of the specification\<close>

text \<open>
  Modelled from the spec: the Game State Machine, module \<^verbatim>\<open>connect4\<close>, which
  \<^verbatim>\<open>app.py\<close> imports and which is not among the sources. The specification gives its
  interface, \<^verbatim>\<open>apply_move(player, column) -> row | MoveError\<close> and
  \<^verbatim>\<open>winner() -> player | none\<close>, a sequential log of \<^verbatim>\<open>(player, column, row)\<close> moves,
  and the illegal moves: wrong turn, full or invalid column, game already won; a rejected
  move changes nothing. Player 1 moves first and a checker lands on the lowest free row
  of its column (the scenario of section 8). The size of the board and the detection of
  a win are left open by the specification and are parameters here. \<^verbatim>\<open>MoveError\<close> is
  the \<^verbatim>\<open>RuntimeError\<close> that \<^verbatim>\<open>play\<close> catches.
\<close>

record board =
  history :: "(json \<times> json \<times> json) list"
  won_by :: json

definition to_move :: "json \<Rightarrow> json \<Rightarrow> board \<Rightarrow> json" where
  "to_move p1 p2 b = (if even (length (history b)) then p1 else p2)"

definition height :: "board \<Rightarrow> json \<Rightarrow> nat" where
  "height b column = length (filter (\<lambda>mv. fst (snd mv) = column) (history b))"

fun valid_column :: "nat \<Rightarrow> json \<Rightarrow> bool" where
  "valid_column ncols (JInt c) = (0 \<le> c \<and> c < int ncols)"
| "valid_column ncols v = False"

definition apply_move ::
  "json \<Rightarrow> json \<Rightarrow> nat \<Rightarrow> nat \<Rightarrow> ((json \<times> json \<times> json) list \<Rightarrow> bool)
     \<Rightarrow> board \<Rightarrow> json \<Rightarrow> json \<Rightarrow> exn + json \<times> board" where
  "apply_move p1 p2 ncols nrows wins b player column =
     (if won_by b \<noteq> JNull then Inl (RuntimeError ''The game is over.'')
      else if player \<noteq> to_move p1 p2 b then Inl (RuntimeError ''It isn't your turn.'')
      else if \<not> valid_column ncols column then Inl (RuntimeError ''This slot does not exist.'')
      else if nrows \<le> height b column then Inl (RuntimeError ''This slot is full.'')
      else
        (let row = JInt (int (height b column));
             h = history b @ [(player, column, row)]
         in Inr (row, \<lparr>history = h, won_by = (if wins h then player else JNull)\<rparr>)))"

definition spec_engine ::
  "json \<Rightarrow> json \<Rightarrow> nat \<Rightarrow> nat \<Rightarrow> ((json \<times> json \<times> json) list \<Rightarrow> bool) \<Rightarrow> board connect4" where
  "spec_engine p1 p2 ncols nrows wins =
     \<lparr>PLAYER1 = p1, PLAYER2 = p2,
      Connect4 = \<lparr>history = [], won_by = JNull\<rparr>,
      game_play = apply_move p1 p2 ncols nrows wins,
      game_winner = won_by,
      game_moves = history\<rparr>"

text \<open>
  An instance to run the server on: players 1 and 2, seven columns of six rows, and a
  win for whoever stacks four of their own checkers in one column.
\<close>

definition four_stacked :: "(json \<times> json \<times> json) list \<Rightarrow> bool" where
  "four_stacked h =
     (case rev h of
        [] \<Rightarrow> False
      | (p, c, row) # older \<Rightarrow>
          (case filter (\<lambda>mv. fst (snd mv) = c) older of
             a # b # d # rest \<Rightarrow> fst a = p \<and> fst b = p \<and> fst d = p
           | _ \<Rightarrow> False))"

definition table_engine :: "board connect4" where
  "table_engine = spec_engine (JInt 1) (JInt 2) 7 6 four_stacked"

definition quiet :: world where
  "quiet =
     \<lparr>urandom_join = (\<lambda>i. 0), urandom_watch = (\<lambda>i. 255), smtp = None,
      inbox = [], closing = None, wait_closed = None\<rparr>"

definition fresh :: "board state" where
  "fresh = initial \<lparr>history = [], won_by = JNull\<rparr>"

definition column_event :: "int \<Rightarrow> message" where
  "column_event c = Json (JObj [(''type'', JStr ''play''), (''column'', JInt c)])"

section \<open>What the loops leave alone\<close>

text \<open>
  Two states have the same frame when they agree on both registries, on what the
  transport refuses, on the allocation counter and on every connection set.
\<close>

definition same_frame :: "'g state \<Rightarrow> 'g state \<Rightarrow> bool" where
  "same_frame st st' \<longleftrightarrow>
     JOIN st' = JOIN st \<and> WATCH st' = WATCH st \<and> refuse st' = refuse st \<and>
     next_ref st' = next_ref st \<and> (\<forall>r. connected (store st' r) = connected (store st r))"

text \<open>The deliveries \<^verbatim>\<open>replay\<close> makes for a list of moves.\<close>

definition replayed :: "(json \<times> json \<times> json) list \<Rightarrow> delivery list" where
  "replayed ms = map (\<lambda>(player, column, row). Sent (play_event player column row)) ms"

text \<open>
  What the loop of \<^verbatim>\<open>play\<close> raises on a frame that is not JSON, that has no
  \<^verbatim>\<open>type\<close>, or whose \<^verbatim>\<open>type\<close> is not \<^verbatim>\<open>"play"\<close>; \<open>None\<close> on any other frame.
\<close>

definition foreign :: "message \<Rightarrow> exn option" where
  "foreign m =
     (case json_loads m of
        Inl e \<Rightarrow> Some e
      | Inr event \<Rightarrow>
          (case subscript event ''type'' of
             Inl e \<Rightarrow> Some e
           | Inr t \<Rightarrow> if t \<noteq> JStr ''play'' then Some AssertionError else None))"

definition error_event :: "string \<Rightarrow> json" where
  "error_event msg = JObj [(''type'', JStr ''error''), (''message'', JStr msg)]"


section \<open>Coroutines with other tasks running at their suspension points\<close>












section \<open>Basic facts\<close>

lemma and_then_simps:
  "and_then (None, s) f = f s"
  "and_then (Some e, s) f = (Some e, s)"
  by (simp_all add: and_then_def)

lemma send_ok: "refuse st w = None \<Longrightarrow>
  send w msg st = (None, st\<lparr>outbox := (outbox st)(w := outbox st w @ [Sent msg])\<rparr>)"
  by (simp add: send_def)

lemma send_refused: "refuse st w = Some e \<Longrightarrow> send w msg st = (Some e, st)"
  by (simp add: send_def)

lemma contains_subscript: "contains event k \<Longrightarrow> \<exists>v. subscript event k = Inr v"
  by (cases event) auto

lemma same_frame_refl [simp]: "same_frame st st"
  by (simp add: same_frame_def)

lemma same_frame_trans: "same_frame a b \<Longrightarrow> same_frame b c \<Longrightarrow> same_frame a c"
  by (simp add: same_frame_def)

lemma same_frame_send: "same_frame st (snd (send w msg st))"
  by (simp add: send_def same_frame_def split: option.splits)

lemma same_frame_broadcast: "same_frame st (broadcast cs msg st)"
  by (simp add: broadcast_def same_frame_def)

lemma same_frame_set_game: "same_frame st (set_game r g st)"
  by (simp add: set_game_def same_frame_def)

lemma same_frame_error: "same_frame st (snd (error w msg st))"
  by (simp add: error_def same_frame_send)

lemma same_frame_and_then:
  assumes "same_frame st (snd a)" and "\<And>s. same_frame s (snd (f s))"
  shows "same_frame st (snd (and_then a f))"
proof (cases a)
  case (Pair res s)
  show ?thesis
  proof (cases res)
    case None
    with Pair assms(1) assms(2)[of s] show ?thesis
      by (auto simp: and_then_def intro: same_frame_trans)
  next
    case (Some e)
    with Pair assms(1) show ?thesis by (simp add: and_then_def)
  qed
qed

lemma same_frame_play_body: "same_frame st (snd (play_body eng w r p m st))"
proof -
  have b: "\<And>cs msg s. same_frame st s \<Longrightarrow> same_frame st (broadcast cs msg s)"
    using same_frame_broadcast same_frame_trans by blast
  show ?thesis
    unfolding play_body_def
    by (auto simp: Let_def same_frame_error same_frame_set_game
        intro!: b split: sum.splits exn.splits prod.splits)
qed

lemma same_frame_play_loop: "same_frame st (snd (play_loop eng w r p ms fin st))"
  by (induction ms arbitrary: st) (auto intro!: same_frame_and_then same_frame_play_body)

lemma same_frame_play: "same_frame st (snd (play eng env w r p st))"
  by (simp add: play_def same_frame_play_loop)

lemma same_frame_replay_copy: "same_frame st (snd (replay_copy w ms st))"
  by (induction ms arbitrary: st) (auto intro!: same_frame_and_then same_frame_send)

lemma same_frame_replay: "same_frame st (snd (replay eng w r st))"
  by (simp add: replay_def same_frame_replay_copy)

lemma same_frame_send_email: "same_frame st (snd (send_email env a b c st))"
  by (simp add: send_email_def)

lemma try_finally_ok:
  "cleanup (snd a) = (None, s') \<Longrightarrow> try_finally a cleanup = (fst a, s')"
  by (cases a) (simp add: try_finally_def)

lemma same_frame_start_setup:
  "JOIN (start_setup eng w jk wk st) = (JOIN st)(jk \<mapsto> next_ref st)"
  "WATCH (start_setup eng w jk wk st) = (WATCH st)(wk \<mapsto> next_ref st)"
  "connected (store (start_setup eng w jk wk st) (next_ref st)) = {w}"
  "game (store (start_setup eng w jk wk st) (next_ref st)) = Connect4 eng"
  "refuse (start_setup eng w jk wk st) = refuse st"
  "outbox (start_setup eng w jk wk st) = outbox st"
  by (simp_all add: start_setup_def Let_def)

lemma start_cleanup_present:
  "JOIN s jk = Some a \<Longrightarrow> WATCH s wk = Some b \<Longrightarrow>
   start_cleanup jk wk s = (None, s\<lparr>JOIN := (JOIN s)(jk := None), WATCH := (WATCH s)(wk := None)\<rparr>)"
  by (simp add: start_cleanup_def del_JOIN_def del_WATCH_def del_def and_then_def)

lemma same_frame_start_try: "same_frame st (snd (start_try eng env w r jk wk email st))"
  unfolding start_try_def
  by (intro same_frame_and_then same_frame_send same_frame_send_email same_frame_play)

lemma same_frame_join_try: "same_frame st (snd (join_try eng env w r email st))"
  unfolding join_try_def
  by (intro same_frame_and_then same_frame_replay same_frame_send_email same_frame_play)

lemma same_frame_watch_try: "same_frame st (snd (watch_try eng env w r email st))"
  unfolding watch_try_def
  by (intro same_frame_and_then same_frame_replay same_frame_send_email) simp

lemma start_unfold:
  "start eng env w email st =
     (let jk = token_urlsafe 12 (urandom_join env); wk = token_urlsafe 12 (urandom_watch env);
          b = start_try eng env w (next_ref st) jk wk email (start_setup eng w jk wk st)
      in (fst b, (snd b)\<lparr>JOIN := (JOIN st)(jk := None), WATCH := (WATCH st)(wk := None)\<rparr>))"
proof -
  let ?jk = "token_urlsafe 12 (urandom_join env)" and ?wk = "token_urlsafe 12 (urandom_watch env)"
  let ?b = "start_try eng env w (next_ref st) ?jk ?wk email (start_setup eng w ?jk ?wk st)"
  have f: "same_frame (start_setup eng w ?jk ?wk st) (snd ?b)" by (rule same_frame_start_try)
  have j: "JOIN (snd ?b) = (JOIN st)(?jk \<mapsto> next_ref st)"
    and wt: "WATCH (snd ?b) = (WATCH st)(?wk \<mapsto> next_ref st)"
    using f by (simp_all add: same_frame_def same_frame_start_setup)
  have c: "start_cleanup ?jk ?wk (snd ?b) =
      (None, (snd ?b)\<lparr>JOIN := (JOIN (snd ?b))(?jk := None), WATCH := (WATCH (snd ?b))(?wk := None)\<rparr>)"
    by (rule start_cleanup_present) (simp_all add: j wt)
  have "start eng env w email st = try_finally ?b (start_cleanup ?jk ?wk)"
    by (simp add: start_def Let_def)
  also have "\<dots> = (fst ?b, (snd ?b)\<lparr>JOIN := (JOIN (snd ?b))(?jk := None), WATCH := (WATCH (snd ?b))(?wk := None)\<rparr>)"
    by (rule try_finally_ok) (rule c)
  finally show ?thesis by (simp add: j wt Let_def)
qed

lemma connected_remove_present:
  "w \<in> connected (store s r) \<Longrightarrow>
   connected_remove w r s =
     (None, s\<lparr>store := (store s)(r := (store s r)\<lparr>connected := connected (store s r) - {w}\<rparr>)\<rparr>)"
  by (simp add: connected_remove_def)

lemma connected_add_simps:
  "connected (store (connected_add w r st) r') =
     (if r' = r then insert w (connected (store st r)) else connected (store st r'))"
  "game (store (connected_add w r st) r') = game (store st r')"
  "JOIN (connected_add w r st) = JOIN st"
  "WATCH (connected_add w r st) = WATCH st"
  "refuse (connected_add w r st) = refuse st"
  "outbox (connected_add w r st) = outbox st"
  "next_ref (connected_add w r st) = next_ref st"
  by (simp_all add: connected_add_def)

lemma join_unfold:
  assumes "lookup (JOIN st) k = Inr r"
  shows "join eng env w k email st =
     (let b = join_try eng env w r email (connected_add w r st)
      in (fst b, (snd b)\<lparr>store := (store (snd b))
              (r := (store (snd b) r)\<lparr>connected := connected (store st r) - {w}\<rparr>)\<rparr>))"
proof -
  let ?b = "join_try eng env w r email (connected_add w r st)"
  have f: "same_frame (connected_add w r st) (snd ?b)" by (rule same_frame_join_try)
  then have c: "connected (store (snd ?b) r) = insert w (connected (store st r))"
    by (simp add: same_frame_def connected_add_simps)
  then have "connected_remove w r (snd ?b) =
     (None, (snd ?b)\<lparr>store := (store (snd ?b))(r := (store (snd ?b) r)\<lparr>connected := connected (store (snd ?b) r) - {w}\<rparr>)\<rparr>)"
    by (intro connected_remove_present) simp
  then have "try_finally ?b (connected_remove w r) =
     (fst ?b, (snd ?b)\<lparr>store := (store (snd ?b))(r := (store (snd ?b) r)\<lparr>connected := connected (store (snd ?b) r) - {w}\<rparr>)\<rparr>)"
    by (rule try_finally_ok)
  then show ?thesis using assms by (simp add: join_def c Let_def)
qed

lemma watch_unfold:
  assumes "lookup (WATCH st) k = Inr r"
  shows "watch eng env w k email st =
     (let b = watch_try eng env w r email (connected_add w r st)
      in (fst b, (snd b)\<lparr>store := (store (snd b))
              (r := (store (snd b) r)\<lparr>connected := connected (store st r) - {w}\<rparr>)\<rparr>))"
proof -
  let ?b = "watch_try eng env w r email (connected_add w r st)"
  have f: "same_frame (connected_add w r st) (snd ?b)" by (rule same_frame_watch_try)
  then have c: "connected (store (snd ?b) r) = insert w (connected (store st r))"
    by (simp add: same_frame_def connected_add_simps)
  then have "connected_remove w r (snd ?b) =
     (None, (snd ?b)\<lparr>store := (store (snd ?b))(r := (store (snd ?b) r)\<lparr>connected := connected (store (snd ?b) r) - {w}\<rparr>)\<rparr>)"
    by (intro connected_remove_present) simp
  then have "try_finally ?b (connected_remove w r) =
     (fst ?b, (snd ?b)\<lparr>store := (store (snd ?b))(r := (store (snd ?b) r)\<lparr>connected := connected (store (snd ?b) r) - {w}\<rparr>)\<rparr>)"
    by (rule try_finally_ok)
  then show ?thesis using assms by (simp add: watch_def c Let_def)
qed

lemma lookup_missing:
  "lookup m k = Inl e \<Longrightarrow> e = KeyError \<or> e = TypeError"
  by (cases k) (auto split: option.splits)

section \<open>Revocation\<close>

lemma del_JOIN_cases:
  "del_JOIN k st =
     (if JOIN st k = None then (Some KeyError, st) else (None, st\<lparr>JOIN := (JOIN st)(k := None)\<rparr>))"
  by (auto simp: del_JOIN_def del_def)

lemma del_WATCH_cases:
  "del_WATCH k st =
     (if WATCH st k = None then (Some KeyError, st) else (None, st\<lparr>WATCH := (WATCH st)(k := None)\<rparr>))"
  by (auto simp: del_WATCH_def del_def)

text \<open>
  C7, as the code has it: revoking a token that is registered removes exactly its entry;
  revoking one that is absent raises \<^verbatim>\<open>KeyError\<close> and leaves the registry as it was,
  and in the cleanup of \<^verbatim>\<open>start\<close> an absent join token makes the exception skip the
  removal of the watch token.
\<close>

theorem revoke_absent_raises:
  "del_JOIN k st =
     (if JOIN st k = None then (Some KeyError, st)
      else (None, st\<lparr>JOIN := (JOIN st)(k := None)\<rparr>)) \<and>
   del_WATCH k st =
     (if WATCH st k = None then (Some KeyError, st)
      else (None, st\<lparr>WATCH := (WATCH st)(k := None)\<rparr>)) \<and>
   start_cleanup k k' st =
     (if JOIN st k = None then (Some KeyError, st)
      else if WATCH st k' = None then (Some KeyError, st\<lparr>JOIN := (JOIN st)(k := None)\<rparr>)
      else (None, st\<lparr>JOIN := (JOIN st)(k := None), WATCH := (WATCH st)(k' := None)\<rparr>))"
  by (simp add: del_JOIN_cases del_WATCH_cases start_cleanup_def and_then_simps)

theorem revoke_absent_raises_witness:
  "del_JOIN ''J'' fresh = (Some KeyError, fresh) \<and>
   del_WATCH ''W'' fresh = (Some KeyError, fresh) \<and>
   start_cleanup ''J'' ''W'' fresh = (Some KeyError, fresh)"
  using revoke_absent_raises [of "''J''" fresh "''W''"] revoke_absent_raises [of "''W''" fresh "''W''"]
  by (simp add: fresh_def initial_def)

text \<open>
  Two hosts whose join tokens collide: the first to leave removes the shared entry, the
  cleanup of the second raises and its watch token stays registered.
\<close>

theorem revoke_not_idempotent:
  "fst (start_cleanup ''J'' ''W2''
         (snd (start_cleanup ''J'' ''W1''
            (start_setup table_engine 2 ''J'' ''W2''
               (start_setup table_engine 1 ''J'' ''W1'' fresh))))) = Some KeyError \<and>
   WATCH (snd (start_cleanup ''J'' ''W2''
         (snd (start_cleanup ''J'' ''W1''
            (start_setup table_engine 2 ''J'' ''W2''
               (start_setup table_engine 1 ''J'' ''W1'' fresh)))))) ''W2'' = Some 1"
  by (simp add: start_cleanup_def start_setup_def del_JOIN_cases del_WATCH_cases
      fresh_def initial_def and_then_simps Let_def)

section \<open>The handler\<close>

text \<open>
  C2: when the first frame of a connection is an init event, the handler calls
  \<^verbatim>\<open>start\<close> with one argument, or \<^verbatim>\<open>join\<close> or \<^verbatim>\<open>watch\<close> with two, one fewer than
  the parameters of the callee; each such call raises \<^verbatim>\<open>TypeError\<close>, so the handler
  raises it and the state of the server is what it was: no session, no join, no watch.
\<close>

theorem handler_always_raises_TypeError:
  assumes "inbox env = m # ms" and "json_loads m = Inr event"
    and "subscript event ''type'' = Inr (JStr ''init'')"
  shows "handler eng env w st = (Some TypeError, st) \<and>
         call_start eng env' [Conn w] st = (Some TypeError, st) \<and>
         call_join eng env' [Conn w, Val k] st = (Some TypeError, st) \<and>
         call_watch eng env' [Conn w, Val k] st = (Some TypeError, st)"
  using assms by (auto simp: handler_def split: sum.splits dest: contains_subscript)

theorem handler_always_raises_TypeError_witness:
  "handler table_engine (quiet\<lparr>inbox := [Json (JObj [(''type'', JStr ''init'')])]\<rparr>) 1 fresh
     = (Some TypeError, fresh) \<and>
   handler table_engine
     (quiet\<lparr>inbox := [Json (JObj [(''type'', JStr ''init''), (''join'', JStr ''J'')])]\<rparr>) 2 fresh
     = (Some TypeError, fresh)"
  using handler_always_raises_TypeError
          [of "quiet\<lparr>inbox := [Json (JObj [(''type'', JStr ''init'')])]\<rparr>"
              "Json (JObj [(''type'', JStr ''init'')])" "[]"
              "JObj [(''type'', JStr ''init'')]" table_engine 1 fresh quiet JNull]
        handler_always_raises_TypeError
          [of "quiet\<lparr>inbox := [Json (JObj [(''type'', JStr ''init''), (''join'', JStr ''J'')])]\<rparr>"
              "Json (JObj [(''type'', JStr ''init''), (''join'', JStr ''J'')])" "[]"
              "JObj [(''type'', JStr ''init''), (''join'', JStr ''J'')]" table_engine 2 fresh quiet JNull]
  by (simp add: json_loads_def)

section \<open>The host path\<close>

lemma lookup_absent: "m k = None \<Longrightarrow> lookup m (JStr k) = Inl KeyError"
  by simp



lemma registries_after_start:
  "JOIN (snd (start eng env w email st)) = (JOIN st)(token_urlsafe 12 (urandom_join env) := None)"
  "WATCH (snd (start eng env w email st)) = (WATCH st)(token_urlsafe 12 (urandom_watch env) := None)"
  by (simp_all add: start_unfold Let_def)






lemma member_during_join_try:
  "w \<in> connected (store (snd (join_try eng env w r email (connected_add w r st))) r)"
  using same_frame_join_try [of "connected_add w r st" eng env w r email]
  by (simp add: same_frame_def connected_add_simps)

lemma member_during_watch_try:
  "w \<in> connected (store (snd (watch_try eng env w r email (connected_add w r st))) r)"
  using same_frame_watch_try [of "connected_add w r st" eng env w r email]
  by (simp add: same_frame_def connected_add_simps)

section \<open>Replay\<close>

lemma replay_copy_ok:
  "refuse st w = None \<Longrightarrow>
   replay_copy w ms st = (None, st\<lparr>outbox := (outbox st)(w := outbox st w @ replayed ms)\<rparr>)"
proof (induction ms arbitrary: st)
  case Nil
  then show ?case by (simp add: replayed_def)
next
  case (Cons mv ms)
  obtain p c row where mv: "mv = (p, c, row)" by (cases mv) auto
  let ?s = "st\<lparr>outbox := (outbox st)(w := outbox st w @ [Sent (play_event p c row)])\<rparr>"
  have r: "refuse ?s w = None" using Cons.prems by simp
  have f: "(outbox ?s)(w := outbox ?s w @ replayed ms)
             = (outbox st)(w := outbox st w @ replayed (mv # ms))"
    by (simp add: mv replayed_def)
  have u: "?s\<lparr>outbox := (outbox ?s)(w := outbox ?s w @ replayed ms)\<rparr>
             = st\<lparr>outbox := (outbox st)(w := outbox st w @ replayed (mv # ms))\<rparr>"
    unfolding f by simp
  have "replay_copy w (mv # ms) st = replay_copy w ms ?s"
    using Cons.prems by (simp add: mv send_ok and_then_simps)
  also have "\<dots> = (None, ?s\<lparr>outbox := (outbox ?s)(w := outbox ?s w @ replayed ms)\<rparr>)"
    by (rule Cons.IH [OF r])
  finally show ?case unfolding u .
qed

lemma replay_copy_refused:
  "refuse st w = Some e \<Longrightarrow> ms \<noteq> [] \<Longrightarrow> replay_copy w ms st = (Some e, st)"
  by (cases ms) (auto simp: send_refused and_then_simps)

section \<open>Frames that are not moves\<close>

lemma play_body_not_json:
  "json_loads m = Inl e \<Longrightarrow> play_body eng w r p m st = (Some e, st)"
  by (simp add: play_body_def)

lemma play_body_not_play:
  "json_loads m = Inr event \<Longrightarrow> subscript event ''type'' = Inr t \<Longrightarrow> t \<noteq> JStr ''play'' \<Longrightarrow>
   play_body eng w r p m st = (Some AssertionError, st)"
  by (simp add: play_body_def)

lemma start_try_reaches_play:
  "refuse st w = None \<Longrightarrow> smtp env = None \<Longrightarrow>
   start_try eng env w r jk wk email st =
     play eng env w r (PLAYER1 eng)
       (st\<lparr>outbox := (outbox st)(w := outbox st w @ [Sent (init_event jk wk)])\<rparr>)"
  by (simp add: start_try_def send_ok send_email_def and_then_simps)

lemma start_try_email_fails:
  "refuse st w = None \<Longrightarrow> smtp env = Some e \<Longrightarrow>
   start_try eng env w r jk wk email st =
     (Some e, st\<lparr>outbox := (outbox st)(w := outbox st w @ [Sent (init_event jk wk)])\<rparr>)"
  by (simp add: start_try_def send_ok send_email_def and_then_simps)

lemma start_try_init_refused:
  "refuse st w = Some e \<Longrightarrow> start_try eng env w r jk wk email st = (Some e, st)"
  by (simp add: start_try_def send_refused and_then_simps)

section \<open>Membership in the connection set\<close>




section \<open>The notification side channel\<close>

lemma start_email_fails:
  assumes "refuse st w = None" and "smtp env = Some e"
  shows "start eng env w email st =
    (Some e,
     (start_setup eng w (token_urlsafe 12 (urandom_join env))
        (token_urlsafe 12 (urandom_watch env)) st)
       \<lparr>outbox := (outbox st)(w := outbox st w @
            [Sent (init_event (token_urlsafe 12 (urandom_join env))
                     (token_urlsafe 12 (urandom_watch env)))]),
        JOIN := (JOIN st)(token_urlsafe 12 (urandom_join env) := None),
        WATCH := (WATCH st)(token_urlsafe 12 (urandom_watch env) := None)\<rparr>)"
proof -
  let ?jk = "token_urlsafe 12 (urandom_join env)" and ?wk = "token_urlsafe 12 (urandom_watch env)"
  let ?s = "start_setup eng w ?jk ?wk st"
  have r: "refuse ?s w = None" using assms(1) by (simp add: same_frame_start_setup)
  show ?thesis
    by (simp add: start_unfold Let_def start_try_email_fails [OF r assms(2)]
        same_frame_start_setup)
qed

lemma join_try_email:
  "and_then (replay eng w r s0) (play eng env w r (PLAYER2 eng)) = (None, s1) \<Longrightarrow>
   join_try eng env w r email s0 = (smtp env, s1)"
  by (simp add: join_try_def and_then_simps send_email_def)

lemma watch_try_email:
  "and_then (replay eng w r s0) (\<lambda>s. (wait_closed env, s)) = (None, s1) \<Longrightarrow>
   watch_try eng env w r email s0 = (smtp env, s1)"
  by (simp add: watch_try_def and_then_simps send_email_def)

lemma join_try_no_email:
  "and_then (replay eng w r s0) (play eng env w r (PLAYER2 eng)) = (Some x, s1) \<Longrightarrow>
   join_try eng env w r email s0 = (Some x, s1)"
  by (simp add: join_try_def and_then_simps)

lemma watch_try_no_email:
  "and_then (replay eng w r s0) (\<lambda>s. (wait_closed env, s)) = (Some x, s1) \<Longrightarrow>
   watch_try eng env w r email s0 = (Some x, s1)"
  by (simp add: watch_try_def and_then_simps)

text \<open>
  C1, as the code has it: \<^verbatim>\<open>send_email\<close> is awaited in line, with no handler around it.
  On the host path it runs after the init event and before the loop: when it raises, no
  frame of the host is read, the exception leaves \<^verbatim>\<open>start\<close>, and the cleanup has
  removed both tokens. On the join and watch paths it runs only once the loop, or
  \<^verbatim>\<open>wait_closed\<close>, has ended without an exception: whatever it raises is the outcome of
  the coroutine, and the connection is removed from the connection set either way.
\<close>

theorem send_email_failure_propagates:
  "(refuse st w = None \<and> smtp env = Some e \<longrightarrow>
      start eng env w email st =
        (Some e,
         (start_setup eng w (token_urlsafe 12 (urandom_join env))
            (token_urlsafe 12 (urandom_watch env)) st)
           \<lparr>outbox := (outbox st)(w := outbox st w @
                [Sent (init_event (token_urlsafe 12 (urandom_join env))
                         (token_urlsafe 12 (urandom_watch env)))]),
            JOIN := (JOIN st)(token_urlsafe 12 (urandom_join env) := None),
            WATCH := (WATCH st)(token_urlsafe 12 (urandom_watch env) := None)\<rparr>)) \<and>
   (lookup (JOIN st) k = Inr r \<and>
    and_then (replay eng w r (connected_add w r st)) (play eng env w r (PLAYER2 eng)) = (None, s1)
    \<longrightarrow>
      join eng env w k email st =
        (smtp env,
         s1\<lparr>store := (store s1)(r := (store s1 r)\<lparr>connected := connected (store st r) - {w}\<rparr>)\<rparr>)) \<and>
   (lookup (WATCH st) k = Inr r \<and>
    and_then (replay eng w r (connected_add w r st)) (\<lambda>s. (wait_closed env, s)) = (None, s1)
    \<longrightarrow>
      watch eng env w k email st =
        (smtp env,
         s1\<lparr>store := (store s1)(r := (store s1 r)\<lparr>connected := connected (store st r) - {w}\<rparr>)\<rparr>))"
  by (simp add: start_email_fails join_unfold watch_unfold join_try_email watch_try_email Let_def)

theorem send_email_failure_propagates_witness:
  "fst (start table_engine (quiet\<lparr>smtp := Some SMTPException\<rparr>) 1 JNull fresh)
     = Some SMTPException \<and>
   fst (join table_engine (quiet\<lparr>smtp := Some SMTPException\<rparr>) 2 (JStr ''J'') JNull
          (start_setup table_engine 1 ''J'' ''W'' fresh)) = Some SMTPException \<and>
   connected (store (snd (join table_engine (quiet\<lparr>smtp := Some SMTPException\<rparr>) 2
          (JStr ''J'') JNull (start_setup table_engine 1 ''J'' ''W'' fresh))) 0) = {1} \<and>
   fst (watch table_engine (quiet\<lparr>smtp := Some SMTPException\<rparr>) 3 (JStr ''W'') JNull
          (start_setup table_engine 1 ''J'' ''W'' fresh)) = Some SMTPException \<and>
   connected (store (snd (watch table_engine (quiet\<lparr>smtp := Some SMTPException\<rparr>) 3
          (JStr ''W'') JNull (start_setup table_engine 1 ''J'' ''W'' fresh))) 0) = {1}"
proof -
  let ?env = "quiet\<lparr>smtp := Some SMTPException\<rparr>"
  let ?st = "start_setup table_engine 1 ''J'' ''W'' fresh"
  have h: "refuse fresh 1 = None \<and> smtp ?env = Some SMTPException"
    by (simp add: fresh_def initial_def)
  have j: "lookup (JOIN ?st) (JStr ''J'') = Inr 0 \<and>
           and_then (replay table_engine 2 0 (connected_add 2 0 ?st))
             (play table_engine ?env 2 0 (PLAYER2 table_engine)) = (None, connected_add 2 0 ?st)"
    by (simp add: start_setup_def Let_def fresh_def initial_def replay_def play_def
        table_engine_def spec_engine_def connected_add_def quiet_def and_then_simps)
  have wt: "lookup (WATCH ?st) (JStr ''W'') = Inr 0 \<and>
           and_then (replay table_engine 3 0 (connected_add 3 0 ?st))
             (\<lambda>s. (wait_closed ?env, s)) = (None, connected_add 3 0 ?st)"
    by (simp add: start_setup_def Let_def fresh_def initial_def replay_def
        table_engine_def spec_engine_def connected_add_def quiet_def and_then_simps)
  have c: "connected (store ?st 0) = {1}"
    by (simp add: start_setup_def Let_def fresh_def initial_def)
  show ?thesis
    using send_email_failure_propagates
            [of fresh 1 ?env SMTPException table_engine JNull JNull 0 fresh]
          send_email_failure_propagates
            [of ?st 2 ?env SMTPException table_engine JNull "JStr ''J''" 0 "connected_add 2 0 ?st"]
          send_email_failure_propagates
            [of ?st 3 ?env SMTPException table_engine JNull "JStr ''W''" 0 "connected_add 3 0 ?st"]
          h j wt c
    by (simp add: connected_add_simps)
qed

text \<open>
  The SMTP dialogue fails for a host whose first frame is a move in column 3: the move is
  never read, \<^verbatim>\<open>start\<close> ends with the exception and the session's tokens are gone.
\<close>

theorem send_email_failure_tears_down:
  "fst (start table_engine (quiet\<lparr>smtp := Some SMTPException, inbox := [column_event 3]\<rparr>)
          1 JNull fresh) = Some SMTPException \<and>
   JOIN (snd (start table_engine (quiet\<lparr>smtp := Some SMTPException, inbox := [column_event 3]\<rparr>)
          1 JNull fresh)) = Map.empty \<and>
   WATCH (snd (start table_engine (quiet\<lparr>smtp := Some SMTPException, inbox := [column_event 3]\<rparr>)
          1 JNull fresh)) = Map.empty \<and>
   game (store (snd (start table_engine
          (quiet\<lparr>smtp := Some SMTPException, inbox := [column_event 3]\<rparr>) 1 JNull fresh)) 0)
     = \<lparr>history = [], won_by = JNull\<rparr>"
proof -
  have "refuse fresh 1 = None" by (simp add: fresh_def initial_def)
  moreover have "smtp (quiet\<lparr>smtp := Some SMTPException, inbox := [column_event 3]\<rparr>)
                   = Some SMTPException" by simp
  ultimately show ?thesis
    by (simp add: start_email_fails start_setup_def Let_def fresh_def initial_def
        table_engine_def spec_engine_def)
qed

section \<open>Frames that end the handling\<close>

lemma play_body_foreign:
  "foreign m = Some x \<Longrightarrow> play_body eng w r p m st = (Some x, st)"
  by (auto simp: foreign_def play_body_def split: sum.splits if_splits)

lemma play_loop_foreign:
  "foreign m = Some x \<Longrightarrow> play_loop eng w r p (m # ms) fin st = (Some x, st)"
  by (simp add: play_body_foreign and_then_simps)

lemma play_foreign:
  "foreign m = Some x \<Longrightarrow> inbox env = m # ms \<Longrightarrow> play eng env w r p st = (Some x, st)"
  unfolding play_def by (simp only: play_loop_foreign)

lemma start_foreign:
  assumes "foreign m = Some x" and "refuse st w = None" and "smtp env = None"
    and "inbox env = m # ms"
  shows "start eng env w email st =
    (Some x,
     (start_setup eng w (token_urlsafe 12 (urandom_join env))
        (token_urlsafe 12 (urandom_watch env)) st)
       \<lparr>outbox := (outbox st)(w := outbox st w @
            [Sent (init_event (token_urlsafe 12 (urandom_join env))
                     (token_urlsafe 12 (urandom_watch env)))]),
        JOIN := (JOIN st)(token_urlsafe 12 (urandom_join env) := None),
        WATCH := (WATCH st)(token_urlsafe 12 (urandom_watch env) := None)\<rparr>)"
proof -
  let ?jk = "token_urlsafe 12 (urandom_join env)" and ?wk = "token_urlsafe 12 (urandom_watch env)"
  let ?s = "start_setup eng w ?jk ?wk st"
  have r: "refuse ?s w = None" using assms(2) by (simp add: same_frame_start_setup)
  show ?thesis
    by (simp add: start_unfold Let_def start_try_reaches_play [OF r assms(3)]
        play_foreign [OF assms(1) assms(4)] same_frame_start_setup)
qed

lemma join_foreign:
  assumes "foreign m = Some x" and "refuse st w = None" and "inbox env = m # ms"
    and "lookup (JOIN st) k = Inr r"
  shows "fst (join eng env w k email st) = Some x"
proof -
  let ?s = "connected_add w r st"
  let ?s1 = "?s\<lparr>outbox := (outbox ?s)(w := outbox ?s w @ replayed (game_moves eng (game (store ?s r))))\<rparr>"
  have "refuse ?s w = None" using assms(2) by (simp add: connected_add_simps)
  then have rp: "replay eng w r ?s = (None, ?s1)"
    unfolding replay_def by (rule replay_copy_ok)
  have pl: "play eng env w r (PLAYER2 eng) ?s1 = (Some x, ?s1)"
    by (rule play_foreign [OF assms(1) assms(3)])
  have "join_try eng env w r email ?s = (Some x, ?s1)"
    unfolding join_try_def rp and_then_simps pl ..
  then show ?thesis by (simp add: join_unfold [OF assms(4)] Let_def)
qed

text \<open>
  C10: a frame that is not JSON, or whose \<^verbatim>\<open>type\<close> is not \<^verbatim>\<open>"play"\<close>, makes the body
  of the loop of \<^verbatim>\<open>play\<close> raise (\<^verbatim>\<open>JSONDecodeError\<close>, \<^verbatim>\<open>AssertionError\<close>) with nothing
  sent and nothing changed; the loop ends there, the frames behind it are never read, and
  the exception leaves the coroutine of the connection. For a joiner it is the outcome of
  \<^verbatim>\<open>join\<close>. For the host it is the outcome of \<^verbatim>\<open>start\<close>, whose cleanup has removed
  both tokens of the session.
\<close>

theorem foreign_frame_ends_handling:
  assumes "foreign m = Some x"
  shows "play_body eng w r p m st = (Some x, st) \<and>
         play_loop eng w r p (m # ms) fin st = (Some x, st) \<and>
         (refuse st w = None \<and> inbox env = m # ms \<and> lookup (JOIN st) k = Inr r \<longrightarrow>
            fst (join eng env w k email st) = Some x) \<and>
         (refuse st w = None \<and> smtp env = None \<and> inbox env = m # ms \<longrightarrow>
            start eng env w email st =
              (Some x,
               (start_setup eng w (token_urlsafe 12 (urandom_join env))
                  (token_urlsafe 12 (urandom_watch env)) st)
                 \<lparr>outbox := (outbox st)(w := outbox st w @
                      [Sent (init_event (token_urlsafe 12 (urandom_join env))
                               (token_urlsafe 12 (urandom_watch env)))]),
                  JOIN := (JOIN st)(token_urlsafe 12 (urandom_join env) := None),
                  WATCH := (WATCH st)(token_urlsafe 12 (urandom_watch env) := None)\<rparr>))"
  using assms
  by (simp add: play_body_foreign and_then_simps start_foreign join_foreign)

theorem foreign_frame_ends_handling_witness:
  "fst (start table_engine
          (quiet\<lparr>inbox := [Json (JObj [(''type'', JStr ''chat'')]), column_event 3]\<rparr>)
          1 JNull fresh) = Some AssertionError \<and>
   JOIN (snd (start table_engine
          (quiet\<lparr>inbox := [Json (JObj [(''type'', JStr ''chat'')]), column_event 3]\<rparr>)
          1 JNull fresh)) = Map.empty \<and>
   play_body table_engine 1 0 (JInt 1) NotJson fresh = (Some JSONDecodeError, fresh)"
proof -
  let ?m = "Json (JObj [(''type'', JStr ''chat'')])"
  let ?env = "quiet\<lparr>inbox := [?m, column_event 3]\<rparr>"
  have f: "foreign ?m = Some AssertionError" by (simp add: foreign_def json_loads_def)
  have g: "foreign NotJson = Some JSONDecodeError" by (simp add: foreign_def json_loads_def)
  have h: "refuse fresh 1 = None \<and> smtp ?env = None \<and> inbox ?env = ?m # [column_event 3]"
    by (simp add: fresh_def initial_def quiet_def)
  show ?thesis
    using foreign_frame_ends_handling
            [OF f, of table_engine 1 0 "JInt 1" fresh "[column_event 3]" None ?env JNull JNull]
          foreign_frame_ends_handling
            [OF g, of table_engine 1 0 "JInt 1" fresh "[]" None quiet JNull JNull] h
    by (simp add: fresh_def initial_def)
qed

section \<open>Rejected moves\<close>

lemma error_ok:
  "refuse st w = None \<Longrightarrow>
   error w msg st = (None, st\<lparr>outbox := (outbox st)(w := outbox st w @ [Sent (error_event msg)])\<rparr>)"
  by (simp add: error_def error_event_def send_ok)

lemma play_body_rejected:
  assumes "json_loads m = Inr event" and "subscript event ''type'' = Inr (JStr ''play'')"
    and "subscript event ''column'' = Inr column"
    and "game_play eng (game (store st r)) p column = Inl (RuntimeError msg)"
  shows "play_body eng w r p m st = error w msg st"
  using assms by (simp add: play_body_def)

lemma apply_move_rejected_iff:
  "(\<exists>msg. apply_move p1 p2 ncols nrows wins b player column = Inl (RuntimeError msg)) \<longleftrightarrow>
   (won_by b \<noteq> JNull \<or> player \<noteq> to_move p1 p2 b \<or> \<not> valid_column ncols column \<or>
    nrows \<le> height b column)"
  by (auto simp: apply_move_def Let_def)

lemma spec_engine_simps:
  "game_play (spec_engine p1 p2 ncols nrows wins) = apply_move p1 p2 ncols nrows wins"
  "game_winner (spec_engine p1 p2 ncols nrows wins) = won_by"
  "game_moves (spec_engine p1 p2 ncols nrows wins) = history"
  "Connect4 (spec_engine p1 p2 ncols nrows wins) = \<lparr>history = [], won_by = JNull\<rparr>"
  "PLAYER1 (spec_engine p1 p2 ncols nrows wins) = p1"
  "PLAYER2 (spec_engine p1 p2 ncols nrows wins) = p2"
  by (simp_all add: spec_engine_def)

text \<open>
  C5, on the engine of the specification: the engine rejects a move exactly when the game
  already has a winner, it is not the player's turn, the column is not a column of the
  board, or the column is full. On a rejected move, with the submitting connection still
  accepting messages, the body of the loop of \<^verbatim>\<open>play\<close> sends one error event to the
  submitting connection and does nothing else: no outbox of another connection, no
  registry, no game and no connection set changes; it returns normally, so the loop goes
  on with the next frame.
\<close>

theorem rejected_move_private_error:
  assumes "json_loads m = Inr event" and "subscript event ''type'' = Inr (JStr ''play'')"
    and "subscript event ''column'' = Inr column"
    and "refuse st w = None" and "b = game (store st r)"
  shows
    "((\<exists>msg. game_play (spec_engine p1 p2 ncols nrows wins) b player column
               = Inl (RuntimeError msg)) \<longleftrightarrow>
      (won_by b \<noteq> JNull \<or> player \<noteq> to_move p1 p2 b \<or> \<not> valid_column ncols column \<or>
       nrows \<le> height b column)) \<and>
     (\<forall>msg. game_play (spec_engine p1 p2 ncols nrows wins) b player column
               = Inl (RuntimeError msg) \<longrightarrow>
        play_body (spec_engine p1 p2 ncols nrows wins) w r player m st =
          (None, st\<lparr>outbox := (outbox st)(w := outbox st w @ [Sent (error_event msg)])\<rparr>) \<and>
        play_loop (spec_engine p1 p2 ncols nrows wins) w r player (m # ms) fin st =
          play_loop (spec_engine p1 p2 ncols nrows wins) w r player ms fin
            (st\<lparr>outbox := (outbox st)(w := outbox st w @ [Sent (error_event msg)])\<rparr>))"
proof (intro conjI allI impI)
  show "(\<exists>msg. game_play (spec_engine p1 p2 ncols nrows wins) b player column
               = Inl (RuntimeError msg)) \<longleftrightarrow>
      (won_by b \<noteq> JNull \<or> player \<noteq> to_move p1 p2 b \<or> \<not> valid_column ncols column \<or>
       nrows \<le> height b column)"
    unfolding spec_engine_simps by (rule apply_move_rejected_iff)
next
  fix msg
  assume rej: "game_play (spec_engine p1 p2 ncols nrows wins) b player column
                 = Inl (RuntimeError msg)"
  let ?E = "spec_engine p1 p2 ncols nrows wins"
  let ?s = "st\<lparr>outbox := (outbox st)(w := outbox st w @ [Sent (error_event msg)])\<rparr>"
  have "play_body ?E w r player m st = error w msg st"
    using assms(1-3) rej unfolding assms(5) by (rule play_body_rejected)
  then show body: "play_body ?E w r player m st = (None, ?s)"
    by (simp add: error_ok [OF assms(4)])
  show "play_loop ?E w r player (m # ms) fin st = play_loop ?E w r player ms fin ?s"
    by (simp add: body and_then_simps)
qed

theorem rejected_move_private_error_witness:
  "play_body table_engine 2 0 (JInt 2) (column_event 3)
       (start_setup table_engine 1 ''J'' ''W'' fresh)
     = (None, (start_setup table_engine 1 ''J'' ''W'' fresh)
                \<lparr>outbox := (outbox (start_setup table_engine 1 ''J'' ''W'' fresh))
                   (2 := outbox (start_setup table_engine 1 ''J'' ''W'' fresh) 2 @
                           [Sent (error_event ''It isn't your turn.'')])\<rparr>)"
proof -
  let ?st = "start_setup table_engine 1 ''J'' ''W'' fresh"
  let ?b = "\<lparr>history = [], won_by = JNull\<rparr>"
  let ?ev = "JObj [(''type'', JStr ''play''), (''column'', JInt 3)]"
  have e: "json_loads (column_event 3) = Inr ?ev"
    by (simp add: column_event_def json_loads_def)
  have t: "subscript ?ev ''type'' = Inr (JStr ''play'')"
    by simp
  have c: "subscript ?ev ''column'' = Inr (JInt 3)"
    by simp
  have r: "refuse ?st 2 = None"
    by (simp add: start_setup_def Let_def fresh_def initial_def)
  have g: "?b = game (store ?st 0)"
    by (simp add: start_setup_def Let_def fresh_def initial_def table_engine_def spec_engine_def)
  have m1: "game_play (spec_engine (JInt 1) (JInt 2) 7 6 four_stacked) ?b (JInt 2) (JInt 3)
              = Inl (RuntimeError ''It isn't your turn.'')"
    by (simp add: spec_engine_def apply_move_def to_move_def)
  note th = rejected_move_private_error [OF e t c r g,
            of "JInt 1" "JInt 2" 7 6 four_stacked "JInt 2" "[]" None]
  from th have "game_play (spec_engine (JInt 1) (JInt 2) 7 6 four_stacked) ?b (JInt 2) (JInt 3)
              = Inl (RuntimeError ''It isn't your turn.'') \<longrightarrow>
      play_body (spec_engine (JInt 1) (JInt 2) 7 6 four_stacked) 2 0 (JInt 2) (column_event 3) ?st =
          (None, ?st\<lparr>outbox := (outbox ?st)(2 := outbox ?st 2 @
              [Sent (error_event ''It isn't your turn.'')])\<rparr>)"
    by (elim conjE allE [where x = "''It isn't your turn.''"]) (rule impI, elim impE, assumption, elim conjE, assumption)
  from this [rule_format, OF m1] show ?thesis
    unfolding table_engine_def .
qed

section \<open>What a connection is sent\<close>




lemma outbox_broadcast:
  "outbox (broadcast cs msg st) c =
     (if c \<in> cs then outbox st c @ [Broadcast msg] else outbox st c)"
  by (simp add: broadcast_def)

lemma outbox_send:
  "outbox (snd (send w msg st)) c =
     (if c = w \<and> refuse st w = None then outbox st c @ [Sent msg] else outbox st c)"
  by (simp add: send_def split: option.splits)

lemma outbox_set_game: "outbox (set_game r g st) = outbox st"
  by (simp add: set_game_def)


lemma play_body_outbox_grows:
  "prefix (outbox st c) (outbox (snd (play_body eng w r p m st)) c)"
  unfolding play_body_def
  by (simp add: Let_def error_def outbox_send outbox_broadcast outbox_set_game
      split: sum.splits exn.splits prod.splits)

lemma and_then_outbox_grows:
  assumes "prefix xs (outbox (snd a) c)"
    and "\<And>s. prefix (outbox s c) (outbox (snd (f s)) c)"
  shows "prefix xs (outbox (snd (and_then a f)) c)"
proof (cases a)
  case (Pair res s)
  show ?thesis
  proof (cases res)
    case None
    with Pair assms(1) assms(2) [of s] show ?thesis
      by (auto simp: and_then_def intro: prefix_order.trans)
  next
    case (Some e)
    with Pair assms(1) show ?thesis by (simp add: and_then_def)
  qed
qed

lemma play_loop_outbox_grows:
  "prefix (outbox st c) (outbox (snd (play_loop eng w r p ms fin st)) c)"
  by (induction ms arbitrary: st)
     (auto intro!: and_then_outbox_grows play_body_outbox_grows)

lemma play_outbox_grows:
  "prefix (outbox st c) (outbox (snd (play eng env w r p st)) c)"
  by (simp add: play_def play_loop_outbox_grows)





section \<open>Replay of the history\<close>






section \<open>Accepted moves\<close>









lemma apply_move_accepts_open_game:
  "apply_move p1 p2 ncols nrows wins b player column = Inr (row, g') \<Longrightarrow> won_by b = JNull"
  by (auto simp: apply_move_def split: if_splits)

















lemma token_bytes_12:
  "token_bytes 12 u = [u 0, u 1, u 2, u 3, u 4, u 5, u 6, u 7, u 8, u 9, u 10, u 11]"
  by (simp add: token_bytes_def eval_nat_numeral)

lemma sextet_values:
  "sextet 0 = CHR ''A''" "sextet 1 = CHR ''B''" "sextet 4 = CHR ''E''" "sextet 16 = CHR ''Q''"
  "sextet 63 = CHR ''_''"
  by (simp_all add: sextet_def b64_alphabet_def)

lemma urlsafe_b64_12:
  "urlsafe_b64 [a, a, a, a, a, a, a, a, a, a, a, a] =
     (let n = unat a * 65536 + unat a * 256 + unat a;
          q = [sextet (n div 262144), sextet (n div 4096), sextet (n div 64), sextet n]
      in q @ q @ q @ q)"
  by (simp add: Let_def)

lemma token_constant:
  "token_urlsafe 12 (\<lambda>i. a) =
     (let n = unat a * 65536 + unat a * 256 + unat a;
          q = [sextet (n div 262144), sextet (n div 4096), sextet (n div 64), sextet n]
      in q @ q @ q @ q)"
  unfolding token_urlsafe_def token_bytes_12 by (rule urlsafe_b64_12)

lemma sextet_mod: "sextet (n mod 64) = sextet n"
  by (simp add: sextet_def)

lemma token_all_zero: "token_urlsafe 12 (\<lambda>i. 0) = ''AAAAAAAAAAAAAAAA''"
  unfolding token_constant by (simp add: sextet_def b64_alphabet_def)

lemma token_all_one: "token_urlsafe 12 (\<lambda>i. 1) = ''AQEBAQEBAQEBAQEB''"
  unfolding token_constant by (simp add: sextet_def b64_alphabet_def)

lemma token_all_ff: "token_urlsafe 12 (\<lambda>i. 255) = ''________________''"
  unfolding token_constant by (simp add: sextet_def b64_alphabet_def)

section \<open>The host's exit among other tasks\<close>









section \<open>Joiners and watchers among the other tasks of their session\<close>



























section \<open>The size of the token space\<close>

lemma b64_alphabet_distinct: "distinct b64_alphabet" "length b64_alphabet = 64"
  by (simp_all add: b64_alphabet_def)

lemma sextet_eq_iff: "sextet m = sextet n \<longleftrightarrow> m mod 64 = n mod 64"
  unfolding sextet_def
  by (rule nth_eq_iff_index_eq) (simp_all add: b64_alphabet_distinct)

lemma sextet_in_alphabet: "sextet n \<in> set b64_alphabet"
  unfolding sextet_def by (rule nth_mem) (simp add: b64_alphabet_distinct)

lemma div_mod_64_eq:
  fixes m n :: nat
  assumes "m div 64 = n div 64" and "m mod 64 = n mod 64"
  shows "m = n"
proof -
  have "m = 64 * (m div 64) + m mod 64" by (rule mult_div_mod_eq [symmetric])
  also have "\<dots> = 64 * (n div 64) + n mod 64" unfolding assms ..
  also have "\<dots> = n" by (rule mult_div_mod_eq)
  finally show ?thesis .
qed

lemma quad_determines:
  fixes m n :: nat
  assumes "m < 16777216" and "n < 16777216"
    and "[sextet (m div 262144), sextet (m div 4096), sextet (m div 64), sextet m] =
         [sextet (n div 262144), sextet (n div 4096), sextet (n div 64), sextet n]"
  shows "m = n"
proof -
  have s: "sextet (m div 262144) = sextet (n div 262144)"
    "sextet (m div 4096) = sextet (n div 4096)"
    "sextet (m div 64) = sextet (n div 64)" "sextet m = sextet n"
    using assms(3) by (simp_all only: list.inject)
  have e: "(m div 262144) mod 64 = (n div 262144) mod 64"
    "(m div 4096) mod 64 = (n div 4096) mod 64"
    "(m div 64) mod 64 = (n div 64) mod 64" "m mod 64 = n mod 64"
    using s unfolding sextet_eq_iff .
  have "m < 64 * 262144" "n < 64 * 262144" using assms(1,2) by simp_all
  then have "m div 262144 < 64" "n div 262144 < 64"
    by (simp_all only: less_mult_imp_div_less)
  then have a: "m div 262144 = n div 262144" using e(1) by (simp only: mod_less)
  have d: "\<And>k::nat. k div 4096 div 64 = k div 262144" "\<And>k::nat. k div 64 div 64 = k div 4096"
    by (simp_all add: div_mult2_eq [symmetric])
  have b: "m div 4096 = n div 4096"
    by (rule div_mod_64_eq) (simp only: d a, rule e(2))
  have c: "m div 64 = n div 64"
    by (rule div_mod_64_eq) (simp only: d b, rule e(3))
  show ?thesis by (rule div_mod_64_eq) (rule c, rule e(4))
qed

lemma unat_byte: "unat (w :: 8 word) < 256"
proof -
  have "unat w < 2 ^ LENGTH(8)" by (rule unsigned_less)
  then show ?thesis by simp
qed

lemma base_256:
  fixes q k q' k' :: nat
  assumes "k < 256" and "k' < 256" and "q * 256 + k = q' * 256 + k'"
  shows "q = q' \<and> k = k'"
proof -
  have "(q * 256 + k) div 256 = (q' * 256 + k') div 256"
    "(q * 256 + k) mod 256 = (q' * 256 + k') mod 256"
    by (simp_all only: assms(3))
  then show ?thesis using assms(1,2) by simp
qed

lemma triple_determines:
  fixes a b c a' b' c' :: "8 word"
  assumes "unat a * 65536 + unat b * 256 + unat c = unat a' * 65536 + unat b' * 256 + unat c'"
  shows "a = a' \<and> b = b' \<and> c = c'"
proof -
  have f: "\<And>x y z :: nat. x * 65536 + y * 256 + z = (x * 256 + y) * 256 + z" by simp
  have "(unat a * 256 + unat b) * 256 + unat c = (unat a' * 256 + unat b') * 256 + unat c'"
    using assms unfolding f .
  then have 1: "unat a * 256 + unat b = unat a' * 256 + unat b' \<and> unat c = unat c'"
    by (rule base_256 [OF unat_byte unat_byte])
  then have "unat a = unat a' \<and> unat b = unat b'"
    by (intro base_256 [OF unat_byte unat_byte]) (rule conjunct1)
  with 1 show ?thesis by (simp only: word_unat_eq_iff)
qed

lemma triple_bound:
  fixes a b c :: "8 word"
  shows "unat a * 65536 + unat b * 256 + unat c < 16777216"
proof -
  have "unat a * 65536 \<le> 255 * 65536" "unat b * 256 \<le> 255 * 256" "unat c \<le> 255"
    using unat_byte [of a] unat_byte [of b] unat_byte [of c] by simp_all
  then show ?thesis by simp
qed

lemma quad_of_triple:
  fixes a b c a' b' c' :: "8 word"
  assumes "(let n = unat a * 65536 + unat b * 256 + unat c
            in [sextet (n div 262144), sextet (n div 4096), sextet (n div 64), sextet n]) =
           (let n = unat a' * 65536 + unat b' * 256 + unat c'
            in [sextet (n div 262144), sextet (n div 4096), sextet (n div 64), sextet n])"
  shows "a = a' \<and> b = b' \<and> c = c'"
  by (rule triple_determines, rule quad_determines [OF triple_bound triple_bound])
     (use assms in \<open>simp only: Let_def\<close>)

lemma urlsafe_b64_triple:
  "urlsafe_b64 (a # b # c # bs) = urlsafe_b64 (a' # b' # c' # bs') \<longleftrightarrow>
     a = a' \<and> b = b' \<and> c = c' \<and> urlsafe_b64 bs = urlsafe_b64 bs'"
proof
  assume e: "urlsafe_b64 (a # b # c # bs) = urlsafe_b64 (a' # b' # c' # bs')"
  let ?q = "\<lambda>a b c. (let n = unat a * 65536 + unat b * 256 + unat (c::8 word)
            in [sextet (n div 262144), sextet (n div 4096), sextet (n div 64), sextet n])"
  have "?q a b c @ urlsafe_b64 bs = ?q a' b' c' @ urlsafe_b64 bs'"
    using e by (simp only: urlsafe_b64.simps)
  moreover have "length (?q a b c) = length (?q a' b' c')" by (simp add: Let_def)
  ultimately have "?q a b c = ?q a' b' c' \<and> urlsafe_b64 bs = urlsafe_b64 bs'"
    using append_eq_append_conv [of "?q a b c" "?q a' b' c'" "urlsafe_b64 bs" "urlsafe_b64 bs'"]
    by blast
  then show "a = a' \<and> b = b' \<and> c = c' \<and> urlsafe_b64 bs = urlsafe_b64 bs'"
    using quad_of_triple [of a b c a' b' c'] by simp
next
  assume "a = a' \<and> b = b' \<and> c = c' \<and> urlsafe_b64 bs = urlsafe_b64 bs'"
  then show "urlsafe_b64 (a # b # c # bs) = urlsafe_b64 (a' # b' # c' # bs')"
    by (simp only: urlsafe_b64.simps)
qed

lemma token_injective:
  "token_urlsafe 12 u = token_urlsafe 12 v \<longleftrightarrow> token_bytes 12 u = token_bytes 12 v"
  unfolding token_urlsafe_def token_bytes_12
  by (simp only: urlsafe_b64_triple list.inject) simp

lemma token_length: "length (token_urlsafe 12 u) = 16"
  unfolding token_urlsafe_def token_bytes_12 by (simp add: Let_def)

lemma token_in_alphabet: "set (token_urlsafe 12 u) \<subseteq> set b64_alphabet"
  unfolding token_urlsafe_def token_bytes_12 by (simp add: Let_def sextet_in_alphabet)

lemma token_bytes_onto:
  assumes "length bs = 12"
  shows "token_bytes 12 (\<lambda>i. bs ! i) = bs"
  unfolding token_bytes_def using map_nth [of bs] assms by simp

lemma token_bytes_length: "length (token_bytes n u) = n"
  by (simp add: token_bytes_def)

lemma token_range:
  "range (token_urlsafe 12) = urlsafe_b64 ` {bs. length bs = 12}"
proof (intro equalityI subsetI)
  fix t assume "t \<in> range (token_urlsafe 12)"
  then obtain u where "t = urlsafe_b64 (token_bytes 12 u)"
    by (auto simp: token_urlsafe_def)
  then show "t \<in> urlsafe_b64 ` {bs. length bs = 12}"
    by (simp add: token_bytes_length)
next
  fix t assume "t \<in> urlsafe_b64 ` {bs. length bs = 12}"
  then obtain bs where b: "length bs = 12" "t = urlsafe_b64 bs" by auto
  then have "t = token_urlsafe 12 (\<lambda>i. bs ! i)"
    by (simp add: token_urlsafe_def token_bytes_onto)
  then show "t \<in> range (token_urlsafe 12)" by simp
qed

lemma urlsafe_b64_inj_on_12: "inj_on urlsafe_b64 {bs. length bs = 12}"
proof (rule inj_onI)
  fix xs ys :: "8 word list"
  assume "xs \<in> {bs. length bs = 12}" "ys \<in> {bs. length bs = 12}"
    and e: "urlsafe_b64 xs = urlsafe_b64 ys"
  then have x: "token_bytes 12 (\<lambda>i. xs ! i) = xs" and y: "token_bytes 12 (\<lambda>i. ys ! i) = ys"
    by (simp_all add: token_bytes_onto)
  have "token_urlsafe 12 (\<lambda>i. xs ! i) = token_urlsafe 12 (\<lambda>i. ys ! i)"
    unfolding token_urlsafe_def x y by (rule e)
  then show "xs = ys" unfolding token_injective x y .
qed

lemma token_count: "card (range (token_urlsafe 12)) = 2 ^ 96"
proof -
  have "card (range (token_urlsafe 12)) = card {bs :: 8 word list. length bs = 12}"
    unfolding token_range by (rule card_image) (rule urlsafe_b64_inj_on_12)
  also have "{bs :: 8 word list. length bs = 12} = {bs. set bs \<subseteq> UNIV \<and> length bs = 12}"
    by simp
  also have "card \<dots> = card (UNIV :: 8 word set) ^ 12"
    by (rule card_lists_length_eq) simp
  also have "\<dots> = 2 ^ 96" by (simp add: card_word)
  finally show ?thesis .
qed

lemma start_sends_tokens:
  assumes "refuse st w = None"
  shows "prefix (outbox st w @
            [Sent (init_event (token_urlsafe 12 (urandom_join env))
                     (token_urlsafe 12 (urandom_watch env)))])
           (outbox (snd (start eng env w email st)) w)"
proof -
  let ?jk = "token_urlsafe 12 (urandom_join env)" and ?wk = "token_urlsafe 12 (urandom_watch env)"
  let ?s = "start_setup eng w ?jk ?wk st"
  have r: "refuse ?s w = None" using assms by (simp add: same_frame_start_setup)
  have "prefix (outbox ?s w @ [Sent (init_event ?jk ?wk)])
          (outbox (snd (start_try eng env w (next_ref st) ?jk ?wk email ?s)) w)"
    unfolding start_try_def
    by (rule and_then_outbox_grows, rule and_then_outbox_grows)
       (simp_all add: outbox_send r send_email_def play_outbox_grows)
  then show ?thesis
    by (simp add: start_unfold Let_def same_frame_start_setup)
qed

text \<open>
  C9: the join token and the watch token that \<^verbatim>\<open>start\<close> issues, and hands to the host in
  the init event, are each the URL-safe Base64 text of 12 bytes drawn from the operating
  system: 16 characters of the alphabet \<^verbatim>\<open>A-Z a-z 0-9 - _\<close>. Different byte strings give
  different tokens, so the tokens range over exactly \<open>2 ^ 96\<close> strings: a token carries the
  96 bits of its bytes, and no more.
\<close>

theorem tokens_carry_96_bits:
  "length (token_urlsafe 12 u) = 16 \<and>
   set (token_urlsafe 12 u) \<subseteq> set b64_alphabet \<and>
   (token_urlsafe 12 u = token_urlsafe 12 v \<longleftrightarrow> token_bytes 12 u = token_bytes 12 v) \<and>
   card (range (token_urlsafe 12)) = 2 ^ 96 \<and>
   (refuse st w = None \<longrightarrow>
      prefix (outbox st w @
                [Sent (init_event (token_urlsafe 12 (urandom_join env))
                         (token_urlsafe 12 (urandom_watch env)))])
        (outbox (snd (start eng env w email st)) w))"
  by (intro conjI impI token_length token_in_alphabet token_injective token_count
      start_sends_tokens)

theorem tokens_carry_96_bits_witness:
  "refuse fresh 1 = None \<and>
   token_urlsafe 12 (\<lambda>i. 0) \<noteq> token_urlsafe 12 (\<lambda>i. 1) \<and>
   length (token_urlsafe 12 (\<lambda>i. 0)) = 16 \<and>
   prefix [Sent (init_event ''AAAAAAAAAAAAAAAA'' ''________________'')]
     (outbox (snd (start table_engine quiet 1 JNull fresh)) 1)"
proof -
  have r: "refuse fresh 1 = None" "outbox fresh 1 = []"
    by (simp_all add: fresh_def initial_def)
  have q: "urandom_join quiet = (\<lambda>i. 0)" "urandom_watch quiet = (\<lambda>i. 255)"
    by (simp_all add: quiet_def)
  have b: "token_bytes 12 (\<lambda>i. 0) \<noteq> token_bytes 12 (\<lambda>i. 1)"
    unfolding token_bytes_12 by simp
  note t = tokens_carry_96_bits [of "\<lambda>i. 0" "\<lambda>i. 1" fresh 1 quiet table_engine JNull]
  have 1: "token_urlsafe 12 (\<lambda>i. 0) \<noteq> token_urlsafe 12 (\<lambda>i. 1)"
    using t b by blast
  have 2: "length (token_urlsafe 12 (\<lambda>i. 0)) = 16"
    using t by blast
  have 3: "prefix [Sent (init_event ''AAAAAAAAAAAAAAAA'' ''________________'')]
     (outbox (snd (start table_engine quiet 1 JNull fresh)) 1)"
    using t r(1) unfolding q token_all_zero token_all_ff r(2) by simp
  show ?thesis by (intro conjI r(1) 1 2 3)
qed

text \<open>
  The tokens do not carry 128 bits: there are fewer than \<open>2 ^ 128\<close> of them, whatever
  the source of the bytes.
\<close>

theorem tokens_below_128_bits:
  "card (range (token_urlsafe 12)) < 2 ^ 128"
  unfolding token_count by simp

end
